theory Spec2Isabelle
  imports Complex_Main "HOL-Library.Multiset"
begin

section \<open>Data model\<close>

text \<open>
  The vocabulary trainer is a single React page. Its decision logic lives in a handful of
  closures over the page state: \<open>normalizeDictionary\<close>, \<open>getProgressKey\<close>,
  \<open>updateProgress\<close>, \<open>filteredWords\<close>, \<open>stats\<close>, \<open>gradeFlash\<close>,
  \<open>generateQuiz\<close> and \<open>onChoose\<close>. Each is embedded below as a function on explicit
  state. JavaScript numbers that hold counters, ranks and millisecond timestamps are integers
  here; a field declared optional (\<open>?\<close>) or nullable is an \<open>option\<close>.
  Field names that clash with Isabelle keywords or constants carry the suffix \<open>_w\<close>.
\<close>

record WordItem =
  value_w :: string
  usphone :: "string option"
  ukphone :: "string option"
  translation :: "string option"
  definition_w :: "string option"
  pos :: "string option"
  collins :: "int option"
  oxford :: "bool option"
  tag :: "string option"
  bnc :: "int option"
  frq :: "int option"

record ProgressData =
  known :: bool
  favorite :: bool
  seenCount :: int
  correctCount :: int
  streak :: int
  lastReviewed :: "int option"
  nextDue :: "int option"

record WordWithProgress = WordItem +
  id_w :: string
  progress :: ProgressData

text \<open>
  \<open>DictionaryFile\<close>: only \<open>name\<close> and \<open>wordList\<close> are ever read. Both are optional
  here because the object comes out of \<open>JSON.parse\<close> and the code guards both
  (\<open>dict?.name || "Default"\<close>, \<open>file.wordList || []\<close>).
\<close>

record DictionaryFile =
  name :: "string option"
  wordList :: "WordItem list option"

definition defaultProgress :: ProgressData where
  "defaultProgress =
     \<lparr> known = False, favorite = False, seenCount = 0, correctCount = 0, streak = 0,
       lastReviewed = None, nextDue = None \<rparr>"

section \<open>Review scheduler\<close>

datatype grade = Again | Good | Easy

text \<open>\<open>INTERVALS\<close>, in milliseconds.\<close>

fun INTERVALS :: "grade \<Rightarrow> int" where
  "INTERVALS Again = 10 * 1000"
| "INTERVALS Good = 10 * 60 * 1000"
| "INTERVALS Easy = 60 * 60 * 1000"

text \<open>
  The updater that \<open>gradeFlash\<close> hands to \<open>updateProgress\<close>. The object literal calls
  \<open>now()\<close> twice, once for \<open>lastReviewed\<close> and once for \<open>nextDue\<close>; the two clock
  readings are the parameters \<open>t_rev\<close> and \<open>t_due\<close>.
\<close>

definition gradeFlash_updater :: "grade \<Rightarrow> int \<Rightarrow> int \<Rightarrow> ProgressData \<Rightarrow> ProgressData" where
  "gradeFlash_updater g t_rev t_due p =
     p\<lparr> seenCount := seenCount p + 1,
        correctCount := (if g = Again then correctCount p else correctCount p + 1),
        streak := (if g = Again then 0 else streak p + 1),
        lastReviewed := Some t_rev,
        nextDue := Some (t_due + INTERVALS g) \<rparr>"

section \<open>Host functions\<close>

text \<open>
  The page leans on built-ins of the JavaScript host: \<open>String.prototype.toLowerCase\<close>,
  \<open>trim\<close>, \<open>split(/\s+/)\<close> and \<open>localeCompare\<close> (Unicode and locale dependent),
  \<open>Array.prototype.sort\<close>, and \<open>Math.random\<close>. The string built-ins are parameters,
  collected in a record; \<open>sort\<close> and the random draws are treated further below.
\<close>

record host =
  toLowerCase :: "string \<Rightarrow> string"
  trim :: "string \<Rightarrow> string"
  split_ws :: "string \<Rightarrow> string list"
  localeCompare :: "string \<Rightarrow> string \<Rightarrow> int"

text \<open>\<open>s.includes(q)\<close> on strings: \<open>q\<close> occurs in \<open>s\<close> as a contiguous run.\<close>

fun starts_with :: "string \<Rightarrow> string \<Rightarrow> bool" where
  "starts_with s [] = True"
| "starts_with [] (c # cs) = False"
| "starts_with (a # as) (c # cs) = (a = c \<and> starts_with as cs)"

fun includes_str :: "string \<Rightarrow> string \<Rightarrow> bool" where
  "includes_str [] q = (q = [])"
| "includes_str (a # as) q = (starts_with (a # as) q \<or> includes_str as q)"

text \<open>\<open>x || ""\<close> on an optional string: absent and empty both give the empty string.\<close>

fun or_empty :: "string option \<Rightarrow> string" where
  "or_empty None = []"
| "or_empty (Some s) = s"

text \<open>
  Numbers as the sort comparators produce them: \<open>x || Infinity\<close> brings in \<open>Infinity\<close>,
  and \<open>Infinity - Infinity\<close> is \<open>NaN\<close>.
\<close>

datatype js_number = Num int | PosInf | NegInf | NaN

fun js_minus :: "js_number \<Rightarrow> js_number \<Rightarrow> js_number" where
  "js_minus (Num a) (Num b) = Num (a - b)"
| "js_minus (Num a) PosInf = NegInf"
| "js_minus (Num a) NegInf = PosInf"
| "js_minus PosInf (Num b) = PosInf"
| "js_minus PosInf NegInf = PosInf"
| "js_minus PosInf PosInf = NaN"
| "js_minus NegInf (Num b) = NegInf"
| "js_minus NegInf PosInf = NegInf"
| "js_minus NegInf NegInf = NaN"
| "js_minus NaN y = NaN"
| "js_minus x NaN = NaN"

text \<open>\<open>x || Infinity\<close> and \<open>x || 0\<close> on an optional number: absent and 0 are both falsy.\<close>

fun or_infinity :: "int option \<Rightarrow> js_number" where
  "or_infinity None = PosInf"
| "or_infinity (Some n) = (if n = 0 then PosInf else Num n)"

fun or_zero :: "int option \<Rightarrow> int" where
  "or_zero None = 0"
| "or_zero (Some n) = (if n = 0 then 0 else n)"

text \<open>
  \<open>Array.prototype.sort(cmp)\<close>. The language fixes what the built-in returns for a
  consistent comparator: the elements in the comparator's order, elements that compare
  equal in their original order (the sort is stable), a comparator result of \<open>NaN\<close> read
  as \<open>+0\<close>. \<open>sort_sign\<close> is that reading of a comparator result; \<open>array_sort\<close> is the
  stable insertion sort, which computes the list the language prescribes.
\<close>

fun sort_sign :: "js_number \<Rightarrow> int" where
  "sort_sign (Num n) = sgn n"
| "sort_sign PosInf = 1"
| "sort_sign NegInf = - 1"
| "sort_sign NaN = 0"

fun insert_sorted :: "('a \<Rightarrow> 'a \<Rightarrow> js_number) \<Rightarrow> 'a \<Rightarrow> 'a list \<Rightarrow> 'a list" where
  "insert_sorted cmp x [] = [x]"
| "insert_sorted cmp x (y # ys) =
     (if sort_sign (cmp x y) \<le> 0 then x # y # ys else y # insert_sorted cmp x ys)"

fun array_sort :: "('a \<Rightarrow> 'a \<Rightarrow> js_number) \<Rightarrow> 'a list \<Rightarrow> 'a list" where
  "array_sort cmp [] = []"
| "array_sort cmp (x # xs) = insert_sorted cmp x (array_sort cmp xs)"

section \<open>Selection engine\<close>

record filters =
  search :: string
  tagFilter :: string
  onlyFavorites :: bool
  onlyDue :: bool
  sortBy :: string

text \<open>
  The predicate of \<open>words.filter(...)\<close> inside \<open>filteredWords\<close>; \<open>q\<close> is
  \<open>search.trim().toLowerCase()\<close> and \<open>nowTs\<close> the clock reading taken before filtering.
  A conditional \<open>x ? a : b\<close> on a number tests truthiness: \<open>null\<close> and 0 are falsy.
\<close>

definition matchDue :: "bool \<Rightarrow> ProgressData \<Rightarrow> int \<Rightarrow> bool" where
  "matchDue only_due p nowTs =
     (\<not> only_due \<or>
      (case nextDue p of None \<Rightarrow> True | Some t \<Rightarrow> (if t \<noteq> 0 then t \<le> nowTs else True)))"

definition word_matches :: "host \<Rightarrow> filters \<Rightarrow> int \<Rightarrow> WordWithProgress \<Rightarrow> bool" where
  "word_matches h f nowTs w =
     (let q = toLowerCase h (trim h (search f));
          matchQuery = (q = [] \<or> includes_str (toLowerCase h (value_w w)) q
                        \<or> includes_str (toLowerCase h (or_empty (translation w))) q);
          matchTag = (tagFilter f = ''all'' \<or> tagFilter f \<in> set (split_ws h (or_empty (tag w))));
          matchFav = (\<not> onlyFavorites f \<or> favorite (progress w))
      in matchQuery \<and> matchTag \<and> matchFav \<and> matchDue (onlyDue f) (progress w) nowTs)"

text \<open>The comparator of \<open>list.sort(...)\<close>: a \<open>switch\<close> on \<open>sortBy\<close> with \<open>alpha\<close> as default.\<close>

definition compareWords :: "host \<Rightarrow> string \<Rightarrow> WordWithProgress \<Rightarrow> WordWithProgress \<Rightarrow> js_number" where
  "compareWords h sort_by a b =
     (if sort_by = ''bnc'' then js_minus (or_infinity (bnc a)) (or_infinity (bnc b))
      else if sort_by = ''frq'' then js_minus (or_infinity (frq a)) (or_infinity (frq b))
      else if sort_by = ''collins'' then Num (or_zero (collins b) - or_zero (collins a))
      else if sort_by = ''progress'' then
        Num (or_zero (Some (streak (progress b))) - or_zero (Some (streak (progress a))))
      else Num (localeCompare h (value_w a) (value_w b)))"

definition filteredWords :: "host \<Rightarrow> filters \<Rightarrow> int \<Rightarrow> WordWithProgress list \<Rightarrow> WordWithProgress list" where
  "filteredWords h f nowTs ws = array_sort (compareWords h (sortBy f)) (filter (word_matches h f nowTs) ws)"

section \<open>Stats aggregator\<close>





section \<open>Word catalog\<close>

text \<open>
  The template literal \<open>`${w.value}-${idx}`\<close> prints the array index in decimal.
  \<open>nat_to_string\<close> is that printing for the non-negative integers an index can be.
\<close>

definition digit_char :: "nat \<Rightarrow> char" where
  "digit_char d = char_of (48 + d)"

fun nat_to_string :: "nat \<Rightarrow> string" where
  "nat_to_string n =
     (if n < 10 then [digit_char n] else nat_to_string (n div 10) @ [digit_char (n mod 10)])"

definition make_entry :: "nat \<times> WordItem \<Rightarrow> WordWithProgress" where
  "make_entry iw =
     WordItem.extend (snd iw)
       (WordWithProgress.fields (value_w (snd iw) @ ''-'' @ nat_to_string (fst iw)) defaultProgress)"

definition normalizeDictionary :: "DictionaryFile \<Rightarrow> WordWithProgress list" where
  "normalizeDictionary file =
     (let list = (case wordList file of None \<Rightarrow> [] | Some l \<Rightarrow> l)
      in map make_entry (enumerate 0 list))"

section \<open>Progress store\<close>

text \<open>\<open>x || d\<close> on an optional string: absent and empty both give the fallback \<open>d\<close>.\<close>

fun or_string :: "string option \<Rightarrow> string \<Rightarrow> string" where
  "or_string None d = d"
| "or_string (Some s) d = (if s = [] then d else s)"

definition getProgressKey :: "string \<Rightarrow> string" where
  "getProgressKey dictName = ''word-progress-'' @ or_string (Some dictName) ''default''"

text \<open>
  An entry of the progress mapping. The mapping is declared
  \<open>Record<string, ProgressData>\<close>, but \<open>updateProgress\<close> can put into it an object that
  is no \<open>ProgressData\<close> (see \<open>run_updater\<close> below); \<open>Malformed\<close> stands for such an object.
\<close>

datatype stored_entry = Entry ProgressData | Malformed

text \<open>
  The page state that the core logic reads and writes. \<open>progressStore\<close> holds the own
  entries of the mapping kept in React state. \<open>localStorage\<close> maps a storage key to the
  progress mapping saved under it: the \<open>JSON.stringify\<close>/\<open>JSON.parse\<close> pair is taken as
  the identity on such a mapping.
\<close>

record app_state =
  dict :: "DictionaryFile option"
  words :: "WordWithProgress list"
  progressStore :: "string \<rightharpoonup> stored_entry"
  localStorage :: "string \<rightharpoonup> (string \<rightharpoonup> stored_entry)"
  flashIndex :: nat
  flashRevealed :: bool
  quizIndex :: nat
  quizAnswered :: "nat option"
  quizOptions :: "WordWithProgress list"

text \<open>\<open>dict?.name\<close>.\<close>

definition dict_name :: "app_state \<Rightarrow> string option" where
  "dict_name st = (case dict st of None \<Rightarrow> None | Some d \<Rightarrow> name d)"

text \<open>\<open>raw ? JSON.parse(raw) : {}\<close> on \<open>localStorage.getItem(key)\<close>.\<close>

definition stored_progress :: "app_state \<Rightarrow> string \<Rightarrow> (string \<rightharpoonup> stored_entry)" where
  "stored_progress st key = (case localStorage st key of None \<Rightarrow> Map.empty | Some obj \<Rightarrow> obj)"

text \<open>
  The member names of \<open>Object.prototype\<close> in a browser. The mapping is a plain object
  (the literal \<open>{}\<close>, the result of \<open>JSON.parse\<close>, or a spread copy), so reading a key
  it does not own goes on to \<open>Object.prototype\<close>, and each of these names yields a truthy
  value there: a function, or under \<open>__proto__\<close> the prototype object itself.
\<close>

definition object_prototype_keys :: "string list" where
  "object_prototype_keys =
     [''constructor'', ''hasOwnProperty'', ''isPrototypeOf'', ''propertyIsEnumerable'',
      ''toLocaleString'', ''toString'', ''valueOf'', ''__proto__'', ''__defineGetter__'',
      ''__defineSetter__'', ''__lookupGetter__'', ''__lookupSetter__'']"

text \<open>
  What \<open>prev[wordValue] || { ...defaultProgress }\<close> evaluates to: a \<open>ProgressData\<close>, or
  some other object. An own entry is an object and so truthy; without an own entry the
  read finds an inherited member for the names above, and only for every other word is it
  \<open>undefined\<close>, which gives a copy of the default state.
\<close>

datatype current_value = Progress ProgressData | OtherObject

definition current_or_default :: "(string \<rightharpoonup> stored_entry) \<Rightarrow> string \<Rightarrow> current_value" where
  "current_or_default prev wordValue =
     (case prev wordValue of
        Some (Entry p) \<Rightarrow> Progress p
      | Some Malformed \<Rightarrow> OtherObject
      | None \<Rightarrow>
          (if wordValue \<in> set object_prototype_keys then OtherObject
           else Progress defaultProgress))"

text \<open>
  \<open>updater(current)\<close>. An updater is typed on \<open>ProgressData\<close>. The page's updaters
  spread their argument and compute from its fields; run on an object that is no
  \<open>ProgressData\<close> (an inherited function has no \<open>seenCount\<close>, so \<open>p.seenCount + 1\<close> is
  \<open>NaN\<close>) they return an object with \<open>NaN\<close> counters and without the two flags, again
  no \<open>ProgressData\<close>.
\<close>

definition run_updater :: "(ProgressData \<Rightarrow> ProgressData) \<Rightarrow> current_value \<Rightarrow> stored_entry" where
  "run_updater updater current =
     (case current of Progress p \<Rightarrow> Entry (updater p) | OtherObject \<Rightarrow> Malformed)"

text \<open>
  \<open>updateProgress\<close>. The assignment \<open>next[wordValue] = ...\<close> creates or overwrites an own
  entry, except for the key \<open>__proto__\<close> when the mapping does not own it: that
  assignment is taken by the setter on \<open>Object.prototype\<close>, which replaces the prototype
  of \<open>next\<close> and adds no entry. The replaced prototype is no entry of the mapping: it is
  not saved, and the spread of the following update does not copy it.
\<close>

definition updateProgress :: "string \<Rightarrow> (ProgressData \<Rightarrow> ProgressData) \<Rightarrow> app_state \<Rightarrow> app_state" where
  "updateProgress wordValue updater st =
     (let prev = progressStore st;
          current = current_or_default prev wordValue;
          result = run_updater updater current;
          next = (if wordValue = ''__proto__'' \<and> prev wordValue = None then prev
                  else prev(wordValue \<mapsto> result));
          name = or_string (dict_name st) ''Default'';
          key = getProgressKey name
      in st\<lparr> progressStore := next, localStorage := (localStorage st)(key \<mapsto> next) \<rparr>)"

text \<open>The effect that reloads the store when \<open>dict?.name\<close> changes.\<close>

definition loadProgressEffect :: "app_state \<Rightarrow> app_state" where
  "loadProgressEffect st =
     (let name = or_string (dict_name st) ''Default'';
          key = getProgressKey name
      in st\<lparr> progressStore := stored_progress st key \<rparr>)"

text \<open>
  The effect of the hook \<open>useLocalStorage\<close> behind \<open>progressStore\<close>: after a change of
  the state it writes the mapping under the hook's own key, which the page fixes as
  \<open>getProgressKey("Default")\<close>. It is declared before the reload effect and so runs before it.
\<close>

definition persistEffect :: "app_state \<Rightarrow> app_state" where
  "persistEffect st =
     st\<lparr> localStorage := (localStorage st)(getProgressKey ''Default'' \<mapsto> progressStore st) \<rparr>"

text \<open>
  \<open>onFileChange\<close>, from the parsed JSON on. A missing file returns at once; a document
  without a word list raises inside the \<open>try\<close> and only alerts, so the state stays as it was.
\<close>

definition onFileChange :: "DictionaryFile option \<Rightarrow> app_state \<Rightarrow> app_state" where
  "onFileChange file st =
     (case file of
        None \<Rightarrow> st
      | Some json \<Rightarrow>
          (case wordList json of
             None \<Rightarrow> st
           | Some l \<Rightarrow>
               (let key = getProgressKey (or_string (name json) ''default'')
                in st\<lparr> dict := Some json, words := normalizeDictionary json,
                       progressStore := stored_progress st key \<rparr>)))"

section \<open>Flashcards and quiz\<close>

text \<open>\<open>xs[i]\<close>: \<open>undefined\<close> (here \<open>None\<close>) outside the array.\<close>

definition at_index :: "'a list \<Rightarrow> nat \<Rightarrow> 'a option" where
  "at_index xs i = (if i < length xs then Some (xs ! i) else None)"

text \<open>
  \<open>gradeFlash\<close>, \<open>generateQuiz\<close> and \<open>onChoose\<close> close over the \<open>filteredWords\<close> of the
  current render; it is their argument \<open>fw\<close> (\<open>flashList\<close> is the same list).
\<close>

definition gradeFlash :: "grade \<Rightarrow> int \<Rightarrow> int \<Rightarrow> WordWithProgress list \<Rightarrow> app_state \<Rightarrow> app_state" where
  "gradeFlash g t_rev t_due flashList st =
     (case at_index flashList (flashIndex st) of
        None \<Rightarrow> st
      | Some currentFlash \<Rightarrow>
          (updateProgress (value_w currentFlash) (gradeFlash_updater g t_rev t_due) st)
            \<lparr> flashIndex := (flashIndex st + 1) mod max 1 (length flashList),
              flashRevealed := False \<rparr>)"

text \<open>
  The random draws of \<open>generateQuiz\<close>. \<open>random_draw\<close> is the value of \<open>Math.random()\<close>
  that picks the target. The two calls \<open>sort(() => Math.random() - 0.5)\<close> rearrange an
  array with a comparator that answers at random; which rearrangement comes out depends on
  the draws and on the engine, so each is a function parameter. \<open>random_ok\<close> says what
  the host guarantees: a draw in \<open>[0, 1)\<close>, and that sorting rearranges and neither drops
  nor repeats an element.
\<close>

record 'a random_source =
  random_draw :: real
  shuffle_pool :: "'a list \<Rightarrow> 'a list"
  shuffle_options :: "'a list \<Rightarrow> 'a list"

definition random_ok :: "'a random_source \<Rightarrow> bool" where
  "random_ok r =
     (0 \<le> random_draw r \<and> random_draw r < 1
      \<and> (\<forall>xs. mset (shuffle_pool r xs) = mset xs)
      \<and> (\<forall>xs. mset (shuffle_options r xs) = mset xs))"

definition generateQuiz :: "WordWithProgress random_source \<Rightarrow> WordWithProgress list \<Rightarrow> app_state \<Rightarrow> app_state" where
  "generateQuiz r fw st =
     (let base = (if length fw \<noteq> 0 then fw else words st)
      in if length base = 0 then st
         else
           (let correctIdx = nat \<lfloor>random_draw r * real (length base)\<rfloor>;
                correct = base ! correctIdx;
                pool = map snd (filter (\<lambda>iw. fst iw \<noteq> correctIdx) (enumerate 0 base));
                shuffled = take 3 (shuffle_pool r pool);
                opts = shuffle_options r (shuffled @ [correct])
            in st\<lparr> quizIndex := correctIdx, quizOptions := opts, quizAnswered := None \<rparr>))"

definition onChoose_updater :: "bool \<Rightarrow> int \<Rightarrow> int \<Rightarrow> ProgressData \<Rightarrow> ProgressData" where
  "onChoose_updater isCorrect t_rev t_due p =
     p\<lparr> seenCount := seenCount p + 1,
        correctCount := correctCount p + (if isCorrect then 1 else 0),
        streak := (if isCorrect then streak p + 1 else 0),
        lastReviewed := Some t_rev,
        nextDue := Some (t_due + (if isCorrect then INTERVALS Good else INTERVALS Again)) \<rparr>"

definition onChoose :: "nat \<Rightarrow> int \<Rightarrow> int \<Rightarrow> WordWithProgress list \<Rightarrow> app_state \<Rightarrow> app_state" where
  "onChoose idx t_rev t_due fw st =
     (if length (quizOptions st) = 0 then st
      else if quizAnswered st \<noteq> None then st
      else
        (let st1 = st\<lparr> quizAnswered := Some idx \<rparr>
         in case (at_index fw (quizIndex st), at_index (quizOptions st) idx) of
              (Some correct, Some chosen) \<Rightarrow>
                updateProgress (value_w correct)
                  (onChoose_updater (value_w chosen = value_w correct) t_rev t_due) st1
            | _ \<Rightarrow> st1))"

section \<open>Consistent comparators\<close>

text \<open>
  The language promises a sorted, stable result only for a consistent comparator: one whose
  answers are antisymmetric in sign and transitive. \<open>before_or_equal\<close> and
  \<open>compares_equal\<close> read a comparator as an order and as its equivalence.
  \<open>consistent_host\<close> asks that of the host's \<open>localeCompare\<close>, a collation.
\<close>

definition consistent_comparator :: "('a \<Rightarrow> 'a \<Rightarrow> js_number) \<Rightarrow> bool" where
  "consistent_comparator cmp =
     ((\<forall>x y. sort_sign (cmp y x) = - sort_sign (cmp x y))
      \<and> (\<forall>x y z. sort_sign (cmp x y) \<le> 0 \<longrightarrow> sort_sign (cmp y z) \<le> 0 \<longrightarrow> sort_sign (cmp x z) \<le> 0))"

definition consistent_host :: "host \<Rightarrow> bool" where
  "consistent_host h = consistent_comparator (\<lambda>a b. Num (localeCompare h a b))"

definition before_or_equal :: "('a \<Rightarrow> 'a \<Rightarrow> js_number) \<Rightarrow> 'a \<Rightarrow> 'a \<Rightarrow> bool" where
  "before_or_equal cmp x y = (sort_sign (cmp x y) \<le> 0)"

definition compares_equal :: "('a \<Rightarrow> 'a \<Rightarrow> js_number) \<Rightarrow> 'a \<Rightarrow> 'a \<Rightarrow> bool" where
  "compares_equal cmp x y = (sort_sign (cmp x y) = 0)"

section \<open>A sample host and the initial page state\<close>

text \<open>
  A host for ASCII text, to run the definitions on concrete input: lower-casing of
  \<open>A\<close> to \<open>Z\<close>, the ASCII white space, comparison by code unit. \<open>plain_word\<close> is a
  word record with only its headword set. \<open>initial_filters\<close> and \<open>initial_state\<close> are
  the initial values of the page's \<open>useState\<close> calls.
\<close>

definition is_space :: "char \<Rightarrow> bool" where
  "is_space c = (c \<in> set [CHR '' '', CHR 0x09, CHR 0x0A, CHR 0x0B, CHR 0x0C, CHR 0x0D])"

definition ascii_lower :: "char \<Rightarrow> char" where
  "ascii_lower c =
     (if (65::nat) \<le> of_char c \<and> of_char c \<le> (90::nat) then char_of (of_char c + (32::nat)) else c)"

definition trim_spaces :: "string \<Rightarrow> string" where
  "trim_spaces s = rev (dropWhile is_space (rev (dropWhile is_space s)))"

function split_spaces :: "string \<Rightarrow> string \<Rightarrow> string list" where
  "split_spaces cur [] = [rev cur]"
| "split_spaces cur (c # cs) =
     (if is_space c then rev cur # split_spaces [] (dropWhile is_space cs)
      else split_spaces (c # cur) cs)"
  by pat_completeness auto
termination
  by (relation "measure (\<lambda>p. length (snd p))") (auto simp: length_dropWhile_le less_Suc_eq_le)

fun code_unit_compare :: "string \<Rightarrow> string \<Rightarrow> int" where
  "code_unit_compare [] [] = 0"
| "code_unit_compare [] (b # bs) = - 1"
| "code_unit_compare (a # as) [] = 1"
| "code_unit_compare (a # as) (b # bs) =
     (if (of_char a :: nat) < of_char b then - 1
      else if (of_char b :: nat) < of_char a then 1
      else code_unit_compare as bs)"

definition ascii_host :: host where
  "ascii_host =
     \<lparr> toLowerCase = map ascii_lower, trim = trim_spaces, split_ws = split_spaces [],
       localeCompare = code_unit_compare \<rparr>"

definition plain_word :: "string \<Rightarrow> WordItem" where
  "plain_word v =
     \<lparr> value_w = v, usphone = None, ukphone = None, translation = None, definition_w = None,
       pos = None, collins = None, oxford = None, tag = None, bnc = None, frq = None \<rparr>"

definition initial_filters :: filters where
  "initial_filters =
     \<lparr> search = [], tagFilter = ''all'', onlyFavorites = False, onlyDue = False, sortBy = ''alpha'' \<rparr>"

definition initial_state :: app_state where
  "initial_state =
     \<lparr> dict = None, words = [], progressStore = Map.empty, localStorage = Map.empty,
       flashIndex = 0, flashRevealed = False, quizIndex = 0, quizAnswered = None,
       quizOptions = [] \<rparr>"

text \<open>
  \<open>sample_catalog\<close> normalizes a word list given directly; \<open>sample_random\<close> is a random
  source that draws 0, leaves the pool in place and reverses the options.
\<close>

definition sample_catalog :: "WordItem list \<Rightarrow> WordWithProgress list" where
  "sample_catalog l = normalizeDictionary \<lparr> name = None, wordList = Some l \<rparr>"

definition sample_random :: "'a random_source" where
  "sample_random = \<lparr> random_draw = 0, shuffle_pool = (\<lambda>xs. xs), shuffle_options = rev \<rparr>"

section \<open>Notions used in the statements\<close>



text \<open>
  Reading a decimal string back. It undoes \<open>nat_to_string\<close>, which shows that the
  printing of indices is injective.
\<close>

definition digit_value :: "char \<Rightarrow> nat" where
  "digit_value c = of_char c - 48"

definition string_to_nat :: "string \<Rightarrow> nat" where
  "string_to_nat s = foldl (\<lambda>a c. 10 * a + digit_value c) 0 s"

section \<open>Properties of the review scheduler\<close>

text \<open>
  C1. Whatever the progress state and the grade, grading a flashcard adds one to
  \<open>seenCount\<close> and sets \<open>lastReviewed\<close> to the current time (the first clock reading).
  Grade "again" keeps \<open>correctCount\<close>, sets \<open>streak\<close> to 0 and makes the word due
  10 seconds (10000 ms) after the current time (the second clock reading); "good" adds one
  to \<open>correctCount\<close> and \<open>streak\<close> and makes it due 10 minutes (600000 ms) after it;
  "easy" does the same with 60 minutes (3600000 ms). The flags \<open>known\<close> and
  \<open>favorite\<close> are not touched.
\<close>

theorem gradeFlash_transition:
  "seenCount (gradeFlash_updater g t_rev t_due p) = seenCount p + 1
   \<and> lastReviewed (gradeFlash_updater g t_rev t_due p) = Some t_rev
   \<and> known (gradeFlash_updater g t_rev t_due p) = known p
   \<and> favorite (gradeFlash_updater g t_rev t_due p) = favorite p
   \<and> correctCount (gradeFlash_updater Again t_rev t_due p) = correctCount p
   \<and> streak (gradeFlash_updater Again t_rev t_due p) = 0
   \<and> nextDue (gradeFlash_updater Again t_rev t_due p) = Some (t_due + 10000)
   \<and> correctCount (gradeFlash_updater Good t_rev t_due p) = correctCount p + 1
   \<and> streak (gradeFlash_updater Good t_rev t_due p) = streak p + 1
   \<and> nextDue (gradeFlash_updater Good t_rev t_due p) = Some (t_due + 600000)
   \<and> correctCount (gradeFlash_updater Easy t_rev t_due p) = correctCount p + 1
   \<and> streak (gradeFlash_updater Easy t_rev t_due p) = streak p + 1
   \<and> nextDue (gradeFlash_updater Easy t_rev t_due p) = Some (t_due + 3600000)"
  by (simp add: gradeFlash_updater_def)

text \<open>
  \<open>gradeFlash\<close> applies that transition to the stored progress of the current card, or to
  the default state when the word has no entry and its name is not inherited from
  \<open>Object.prototype\<close>, and does nothing without a current card.
\<close>

lemma gradeFlash_applies:
  "flashIndex st < length flashList \<Longrightarrow>
   progressStore st (value_w (flashList ! flashIndex st)) = Some (Entry p) \<Longrightarrow>
     progressStore (gradeFlash g t_rev t_due flashList st) (value_w (flashList ! flashIndex st))
       = Some (Entry (gradeFlash_updater g t_rev t_due p))"
  by (simp add: gradeFlash_def at_index_def updateProgress_def current_or_default_def
      run_updater_def Let_def)

lemma gradeFlash_applies_default:
  "flashIndex st < length flashList \<Longrightarrow>
   progressStore st (value_w (flashList ! flashIndex st)) = None \<Longrightarrow>
   value_w (flashList ! flashIndex st) \<notin> set object_prototype_keys \<Longrightarrow>
     progressStore (gradeFlash g t_rev t_due flashList st) (value_w (flashList ! flashIndex st))
       = Some (Entry (gradeFlash_updater g t_rev t_due defaultProgress))"
  by (simp add: gradeFlash_def at_index_def updateProgress_def current_or_default_def
      run_updater_def Let_def) (simp add: object_prototype_keys_def)

lemma gradeFlash_no_card:
  "length flashList \<le> flashIndex st \<Longrightarrow> gradeFlash g t_rev t_due flashList st = st"
  by (simp add: gradeFlash_def at_index_def)

section \<open>The built-in sort\<close>

lemma mset_insert_sorted: "mset (insert_sorted cmp x ys) = add_mset x (mset ys)"
  by (induction ys) auto

lemma mset_array_sort: "mset (array_sort cmp xs) = mset xs"
  by (induction xs) (auto simp: mset_insert_sorted)

lemma set_array_sort: "set (array_sort cmp xs) = set xs"
  by (metis mset_array_sort set_mset_mset)

lemma length_array_sort: "length (array_sort cmp xs) = length xs"
  by (metis mset_array_sort size_mset)

lemma consistent_total:
  "consistent_comparator cmp \<Longrightarrow> before_or_equal cmp x y \<or> before_or_equal cmp y x"
  unfolding consistent_comparator_def before_or_equal_def
  by (metis neg_le_0_iff_le linear)

lemma consistent_trans:
  "consistent_comparator cmp \<Longrightarrow> before_or_equal cmp x y \<Longrightarrow> before_or_equal cmp y z
     \<Longrightarrow> before_or_equal cmp x z"
  unfolding consistent_comparator_def before_or_equal_def by blast

lemma set_insert_sorted: "set (insert_sorted cmp x ys) = insert x (set ys)"
  by (metis mset_insert_sorted set_mset_add_mset_insert set_mset_mset)

lemma sorted_insert_sorted:
  assumes "consistent_comparator cmp" and "sorted_wrt (before_or_equal cmp) ys"
  shows "sorted_wrt (before_or_equal cmp) (insert_sorted cmp x ys)"
  using assms(2)
proof (induction ys)
  case Nil
  then show ?case by simp
next
  case (Cons y ys)
  show ?case
  proof (cases "sort_sign (cmp x y) \<le> 0")
    case True
    then have xy: "before_or_equal cmp x y" by (simp add: before_or_equal_def)
    have "\<forall>z\<in>set ys. before_or_equal cmp x z"
      using Cons.prems xy consistent_trans [OF assms(1)] by auto
    with True xy Cons.prems show ?thesis by simp
  next
    case False
    then have yx: "before_or_equal cmp y x"
      using consistent_total [OF assms(1), of x y] by (simp add: before_or_equal_def)
    with False Cons show ?thesis by (auto simp: set_insert_sorted)
  qed
qed

lemma sorted_array_sort:
  "consistent_comparator cmp \<Longrightarrow> sorted_wrt (before_or_equal cmp) (array_sort cmp xs)"
  by (induction xs) (auto simp: sorted_insert_sorted)

lemma insert_sorted_front:
  "\<forall>y\<in>set ys. before_or_equal cmp x y \<Longrightarrow> insert_sorted cmp x ys = x # ys"
  by (cases ys) (auto simp: before_or_equal_def)

lemma array_sort_of_sorted:
  "sorted_wrt (before_or_equal cmp) xs \<Longrightarrow> array_sort cmp xs = xs"
proof (induction xs)
  case Nil
  then show ?case by simp
next
  case (Cons x xs)
  then have "array_sort cmp xs = xs" and "\<forall>y\<in>set xs. before_or_equal cmp x y" by simp_all
  then show ?case using insert_sorted_front [of xs cmp x] by simp
qed

lemma compares_equal_shift:
  assumes "consistent_comparator cmp" and "compares_equal cmp k x" and "compares_equal cmp k y"
  shows "sort_sign (cmp x y) \<le> 0"
proof -
  have "sort_sign (cmp x k) = - sort_sign (cmp k x)"
    using assms(1) unfolding consistent_comparator_def by blast
  then have "sort_sign (cmp x k) = 0"
    using assms(2) by (simp add: compares_equal_def)
  then have "before_or_equal cmp x k" by (simp add: before_or_equal_def)
  moreover have "before_or_equal cmp k y" using assms(3) by (simp add: compares_equal_def before_or_equal_def)
  ultimately show ?thesis using consistent_trans [OF assms(1)] by (auto simp: before_or_equal_def)
qed

lemma filter_insert_sorted_other:
  "\<not> P x \<Longrightarrow> filter P (insert_sorted cmp x ys) = filter P ys"
  by (induction ys) auto

lemma filter_insert_sorted_same:
  assumes "consistent_comparator cmp" and "compares_equal cmp k x"
  shows "filter (compares_equal cmp k) (insert_sorted cmp x ys) = x # filter (compares_equal cmp k) ys"
proof (induction ys)
  case Nil
  then show ?case using assms(2) by simp
next
  case (Cons y ys)
  show ?case
  proof (cases "sort_sign (cmp x y) \<le> 0")
    case True
    then show ?thesis using assms(2) by simp
  next
    case False
    then have "\<not> compares_equal cmp k y"
      using compares_equal_shift [OF assms(1) assms(2)] by blast
    with False Cons.IH show ?thesis by simp
  qed
qed

lemma array_sort_stable:
  assumes "consistent_comparator cmp"
  shows "filter (compares_equal cmp k) (array_sort cmp xs) = filter (compares_equal cmp k) xs"
proof (induction xs)
  case Nil
  then show ?case by simp
next
  case (Cons x xs)
  then show ?case
    by (cases "compares_equal cmp k x")
       (simp_all add: filter_insert_sorted_same [OF assms] filter_insert_sorted_other)
qed

lemma sign_or_infinity_cases:
  "sort_sign (js_minus (or_infinity a) (or_infinity b)) \<le> 0
     \<longleftrightarrow> (or_infinity b = PosInf \<or> (\<exists>m n. or_infinity a = Num m \<and> or_infinity b = Num n \<and> m \<le> n))"
  by (cases a; cases b) (auto simp: sgn_if)

lemma consistent_rank:
  "consistent_comparator (\<lambda>a b. js_minus (or_infinity (f a)) (or_infinity (f b)))"
  unfolding consistent_comparator_def
proof (intro conjI allI impI)
  fix x y
  show "sort_sign (js_minus (or_infinity (f y)) (or_infinity (f x)))
          = - sort_sign (js_minus (or_infinity (f x)) (or_infinity (f y)))"
    by (cases "f x"; cases "f y") (auto simp: sgn_if)
next
  fix x y z
  assume "sort_sign (js_minus (or_infinity (f x)) (or_infinity (f y))) \<le> 0"
     and "sort_sign (js_minus (or_infinity (f y)) (or_infinity (f z))) \<le> 0"
  then show "sort_sign (js_minus (or_infinity (f x)) (or_infinity (f z))) \<le> 0"
    unfolding sign_or_infinity_cases by auto
qed

lemma consistent_descending:
  "consistent_comparator (\<lambda>a b. Num (g b - g a))"
  unfolding consistent_comparator_def by (auto simp: sgn_if)

lemma consistent_compareWords:
  assumes "consistent_host h"
  shows "consistent_comparator (compareWords h sort_by)"
proof -
  have alpha: "consistent_comparator (\<lambda>a b. Num (localeCompare h (value_w a) (value_w b)))"
    using assms unfolding consistent_host_def consistent_comparator_def
    by (intro conjI allI impI) blast+
  have rank: "\<And>f. consistent_comparator (\<lambda>a b :: WordWithProgress. js_minus (or_infinity (f a)) (or_infinity (f b)))"
    by (rule consistent_rank)
  have desc: "\<And>g. consistent_comparator (\<lambda>a b :: WordWithProgress. Num (g b - g a))"
    by (rule consistent_descending)
  consider "sort_by = ''bnc''" | "sort_by \<noteq> ''bnc''" "sort_by = ''frq''"
    | "sort_by \<noteq> ''bnc''" "sort_by \<noteq> ''frq''" "sort_by = ''collins''"
    | "sort_by \<noteq> ''bnc''" "sort_by \<noteq> ''frq''" "sort_by \<noteq> ''collins''" "sort_by = ''progress''"
    | "sort_by \<noteq> ''bnc''" "sort_by \<noteq> ''frq''" "sort_by \<noteq> ''collins''" "sort_by \<noteq> ''progress''"
    by blast
  then show ?thesis
  proof cases
    case 1
    then have "compareWords h sort_by = (\<lambda>a b. js_minus (or_infinity (bnc a)) (or_infinity (bnc b)))"
      by (intro ext) (simp add: compareWords_def)
    then show ?thesis using rank [of bnc] by simp
  next
    case 2
    then have "compareWords h sort_by = (\<lambda>a b. js_minus (or_infinity (frq a)) (or_infinity (frq b)))"
      by (intro ext) (simp add: compareWords_def)
    then show ?thesis using rank [of frq] by simp
  next
    case 3
    then have "compareWords h sort_by = (\<lambda>a b. Num (or_zero (collins b) - or_zero (collins a)))"
      by (intro ext) (simp add: compareWords_def)
    then show ?thesis using desc [of "\<lambda>w. or_zero (collins w)"] by simp
  next
    case 4
    then have "compareWords h sort_by
        = (\<lambda>a b. Num (or_zero (Some (streak (progress b))) - or_zero (Some (streak (progress a)))))"
      by (intro ext) (simp add: compareWords_def)
    then show ?thesis using desc [of "\<lambda>w. or_zero (Some (streak (progress w)))"] by simp
  next
    case 5
    then have "compareWords h sort_by = (\<lambda>a b. Num (localeCompare h (value_w a) (value_w b)))"
      by (intro ext) (simp add: compareWords_def)
    then show ?thesis using alpha by simp
  qed
qed

section \<open>The sample host is consistent\<close>

lemma code_unit_compare_flip: "code_unit_compare b a = - code_unit_compare a b"
  by (induction a b rule: code_unit_compare.induct) auto

lemma code_unit_compare_range: "code_unit_compare a b \<in> {- 1, 0, 1}"
  by (induction a b rule: code_unit_compare.induct) auto

lemma code_unit_compare_trans:
  "code_unit_compare a b \<le> 0 \<Longrightarrow> code_unit_compare b c \<le> 0 \<Longrightarrow> code_unit_compare a c \<le> 0"
proof (induction a b arbitrary: c rule: code_unit_compare.induct)
  case 1
  then show ?case by simp
next
  case (2 b bs)
  then show ?case by (cases c) auto
next
  case (3 a as)
  then show ?case by simp
next
  case (4 a as b bs)
  show ?case
  proof (cases c)
    case Nil
    with 4 show ?thesis by simp
  next
    case (Cons d ds)
    let ?a = "of_char a :: nat" and ?b = "of_char b :: nat" and ?d = "of_char d :: nat"
    have ab: "?a \<le> ?b" using "4.prems"(1) by (simp split: if_splits)
    have bd: "?b \<le> ?d" using "4.prems"(2) Cons by (simp split: if_splits)
    show ?thesis
    proof (cases "?a < ?d")
      case True
      then show ?thesis using Cons by simp
    next
      case False
      with ab bd have eq: "?a = ?b" "?b = ?d" by linarith+
      then have "code_unit_compare as bs \<le> 0" and "code_unit_compare bs ds \<le> 0"
        using "4.prems" Cons by simp_all
      then have "code_unit_compare as ds \<le> 0"
        using "4.IH" [of ds] eq by simp
      then show ?thesis using Cons eq by simp
    qed
  qed
qed

lemma consistent_ascii_host: "consistent_host ascii_host"
  unfolding consistent_host_def consistent_comparator_def
proof (intro conjI allI impI)
  fix x y
  show "sort_sign (Num (localeCompare ascii_host y x)) = - sort_sign (Num (localeCompare ascii_host x y))"
    using code_unit_compare_flip [of y x] by (simp add: ascii_host_def sgn_if)
next
  fix x y z
  assume "sort_sign (Num (localeCompare ascii_host x y)) \<le> 0"
     and "sort_sign (Num (localeCompare ascii_host y z)) \<le> 0"
  then show "sort_sign (Num (localeCompare ascii_host x z)) \<le> 0"
    using code_unit_compare_trans [of x y z] by (simp add: ascii_host_def sgn_if split: if_splits)
qed

section \<open>Properties of the selection engine and the due predicate\<close>

lemma stable_sorted_unique:
  assumes c: "consistent_comparator cmp"
  shows "sorted_wrt (before_or_equal cmp) ys \<Longrightarrow> sorted_wrt (before_or_equal cmp) zs
     \<Longrightarrow> (\<And>k. filter (compares_equal cmp k) ys = filter (compares_equal cmp k) zs)
     \<Longrightarrow> ys = zs"
proof (induction ys arbitrary: zs)
  case Nil
  show ?case
  proof (cases zs)
    case Nil
    then show ?thesis by simp
  next
    case (Cons z zs')
    have zz: "compares_equal cmp z z"
      using c unfolding consistent_comparator_def compares_equal_def
      by (metis add.inverse_neutral equal_neg_zero neg_equal_iff_equal)
    then show ?thesis using Nil.prems(3) [of z] Cons by simp
  qed
next
  case (Cons y ys)
  have refl: "\<And>x. compares_equal cmp x x"
    using c unfolding consistent_comparator_def compares_equal_def
    by (metis add.inverse_neutral equal_neg_zero neg_equal_iff_equal)
  have "filter (compares_equal cmp y) zs \<noteq> []"
    using Cons.prems(3) [of y] refl [of y] by (metis filter.simps(2) list.distinct(1))
  then obtain z zs' where zs: "zs = z # zs'" by (cases zs) auto
  have yz: "before_or_equal cmp y z"
  proof -
    have "z \<in> set (filter (compares_equal cmp z) (y # ys))"
      using Cons.prems(3) [of z] refl [of z] zs by simp
    then have "z = y \<or> z \<in> set ys" by (auto split: if_splits)
    then show ?thesis
      using Cons.prems(1) refl [of y] by (auto simp: before_or_equal_def compares_equal_def)
  qed
  have zy: "before_or_equal cmp z y"
  proof -
    have "y \<in> set (filter (compares_equal cmp y) (z # zs'))"
      using Cons.prems(3) [of y] refl [of y] zs by (metis list.set_intros(1) filter.simps(2))
    then have "y = z \<or> y \<in> set zs'" by (auto split: if_splits)
    then show ?thesis
      using Cons.prems(2) zs refl [of z] by (auto simp: before_or_equal_def compares_equal_def)
  qed
  have flip: "sort_sign (cmp z y) = - sort_sign (cmp y z)"
    using c unfolding consistent_comparator_def by blast
  have eq_yz: "compares_equal cmp y z"
    using yz zy flip by (simp add: before_or_equal_def compares_equal_def)
  have "y # filter (compares_equal cmp y) ys = z # filter (compares_equal cmp y) zs'"
    using Cons.prems(3) [of y] refl [of y] eq_yz zs by auto
  then have "y = z" by simp
  have tails: "\<And>k. filter (compares_equal cmp k) ys = filter (compares_equal cmp k) zs'"
  proof -
    fix k
    show "filter (compares_equal cmp k) ys = filter (compares_equal cmp k) zs'"
      using Cons.prems(3) [of k] zs \<open>y = z\<close> by (cases "compares_equal cmp k z") simp_all
  qed
  have "ys = zs'"
    using Cons.IH [of zs'] Cons.prems(1,2) zs tails by simp
  with \<open>y = z\<close> zs show ?case by simp
qed

lemma filteredWords_sorted:
  "consistent_host h \<Longrightarrow>
     sorted_wrt (before_or_equal (compareWords h (sortBy f))) (filteredWords h f nowTs ws)"
  by (simp add: filteredWords_def sorted_array_sort consistent_compareWords)

lemma filteredWords_mset:
  "mset (filteredWords h f nowTs ws) = mset (filter (word_matches h f nowTs) ws)"
  by (simp add: filteredWords_def mset_array_sort)

lemma filteredWords_set:
  "set (filteredWords h f nowTs ws) = {w \<in> set ws. word_matches h f nowTs w}"
  by (simp add: filteredWords_def set_array_sort)

lemma filteredWords_again:
  assumes "consistent_host h"
  shows "filteredWords h f nowTs (filteredWords h f nowTs ws) = filteredWords h f nowTs ws"
proof -
  let ?out = "filteredWords h f nowTs ws"
  have "filter (word_matches h f nowTs) ?out = ?out"
    by (rule filter_True) (simp add: filteredWords_set)
  then have "filteredWords h f nowTs ?out = array_sort (compareWords h (sortBy f)) ?out"
    by (simp add: filteredWords_def)
  also have "\<dots> = ?out"
    by (rule array_sort_of_sorted) (rule filteredWords_sorted [OF assms])
  finally show ?thesis .
qed

lemma filteredWords_keeps_order:
  "consistent_host h \<Longrightarrow>
     filter (compares_equal (compareWords h (sortBy f)) k) (filteredWords h f nowTs ws)
       = filter (compares_equal (compareWords h (sortBy f)) k) (filter (word_matches h f nowTs) ws)"
  by (simp add: filteredWords_def array_sort_stable consistent_compareWords)

text \<open>
  C4. With a host whose \<open>localeCompare\<close> is a consistent comparator, for every word list,
  filter setting, sort key and clock reading: selecting again from the selection's own
  output returns it unchanged; the output holds exactly the words that pass the filter; it
  is in the order of the sort key; words that compare equal under the sort key stand in
  their catalog order; and no other list is both in that order and stable in that way, so
  the same input always gives the same ordered output. The instance that follows runs the
  example of the entries b, a, a sorted alphabetically.
\<close>

theorem filteredWords_stable:
  assumes "consistent_host h"
  shows "filteredWords h f nowTs (filteredWords h f nowTs ws) = filteredWords h f nowTs ws
     \<and> mset (filteredWords h f nowTs ws) = mset (filter (word_matches h f nowTs) ws)
     \<and> sorted_wrt (before_or_equal (compareWords h (sortBy f))) (filteredWords h f nowTs ws)
     \<and> (\<forall>k. filter (compares_equal (compareWords h (sortBy f)) k) (filteredWords h f nowTs ws)
            = filter (compares_equal (compareWords h (sortBy f)) k)
                (filter (word_matches h f nowTs) ws))
     \<and> (\<forall>ys. sorted_wrt (before_or_equal (compareWords h (sortBy f))) ys
            \<and> (\<forall>k. filter (compares_equal (compareWords h (sortBy f)) k) ys
                   = filter (compares_equal (compareWords h (sortBy f)) k)
                       (filter (word_matches h f nowTs) ws))
            \<longrightarrow> ys = filteredWords h f nowTs ws)"
proof (intro conjI allI impI)
  show "filteredWords h f nowTs (filteredWords h f nowTs ws) = filteredWords h f nowTs ws"
    by (rule filteredWords_again [OF assms])
  show "mset (filteredWords h f nowTs ws) = mset (filter (word_matches h f nowTs) ws)"
    by (rule filteredWords_mset)
  show "sorted_wrt (before_or_equal (compareWords h (sortBy f))) (filteredWords h f nowTs ws)"
    by (rule filteredWords_sorted [OF assms])
next
  fix k
  show "filter (compares_equal (compareWords h (sortBy f)) k) (filteredWords h f nowTs ws)
          = filter (compares_equal (compareWords h (sortBy f)) k) (filter (word_matches h f nowTs) ws)"
    by (rule filteredWords_keeps_order [OF assms])
next
  fix ys
  assume a: "sorted_wrt (before_or_equal (compareWords h (sortBy f))) ys
     \<and> (\<forall>k. filter (compares_equal (compareWords h (sortBy f)) k) ys
            = filter (compares_equal (compareWords h (sortBy f)) k)
                (filter (word_matches h f nowTs) ws))"
  show "ys = filteredWords h f nowTs ws"
  proof (rule stable_sorted_unique [OF consistent_compareWords [OF assms, of "sortBy f"]])
    show "sorted_wrt (before_or_equal (compareWords h (sortBy f))) ys" using a by simp
    show "sorted_wrt (before_or_equal (compareWords h (sortBy f))) (filteredWords h f nowTs ws)"
      by (rule filteredWords_sorted [OF assms])
    fix k
    show "filter (compares_equal (compareWords h (sortBy f)) k) ys
            = filter (compares_equal (compareWords h (sortBy f)) k) (filteredWords h f nowTs ws)"
      using a filteredWords_keeps_order [OF assms, of f k nowTs ws] by simp
  qed
qed

lemma sample_baa_sorted:
  "map id_w (filteredWords ascii_host initial_filters 0
       (sample_catalog [plain_word ''b'', plain_word ''a'', plain_word ''a'']))
     = [''a-1'', ''a-2'', ''b-0'']"
  by code_simp

theorem filteredWords_stable_witness:
  "consistent_host ascii_host
   \<and> map id_w (filteredWords ascii_host initial_filters 0
          (sample_catalog [plain_word ''b'', plain_word ''a'', plain_word ''a'']))
       = [''a-1'', ''a-2'', ''b-0'']
   \<and> filteredWords ascii_host initial_filters 0
         (filteredWords ascii_host initial_filters 0
            (sample_catalog [plain_word ''b'', plain_word ''a'', plain_word ''a'']))
       = filteredWords ascii_host initial_filters 0
           (sample_catalog [plain_word ''b'', plain_word ''a'', plain_word ''a''])"
  using filteredWords_stable [OF consistent_ascii_host, of initial_filters 0
      "sample_catalog [plain_word ''b'', plain_word ''a'', plain_word ''a'']"]
    consistent_ascii_host sample_baa_sorted
  by simp
















section \<open>Properties of the progress store and the quiz\<close>

lemma updateProgress_store:
  "progressStore (updateProgress w f st)
     = (if w = ''__proto__'' \<and> progressStore st w = None then progressStore st
        else (progressStore st)(w \<mapsto> run_updater f (current_or_default (progressStore st) w)))"
  by (simp add: updateProgress_def Let_def)

lemma updateProgress_storage:
  "localStorage (updateProgress w f st)
     = (localStorage st)(getProgressKey (or_string (dict_name st) ''Default'')
          \<mapsto> progressStore (updateProgress w f st))"
  by (simp add: updateProgress_def Let_def)

lemma updateProgress_rest:
  "words (updateProgress w f st) = words st \<and> dict (updateProgress w f st) = dict st
   \<and> flashIndex (updateProgress w f st) = flashIndex st
   \<and> flashRevealed (updateProgress w f st) = flashRevealed st
   \<and> quizIndex (updateProgress w f st) = quizIndex st
   \<and> quizAnswered (updateProgress w f st) = quizAnswered st
   \<and> quizOptions (updateProgress w f st) = quizOptions st"
  by (simp add: updateProgress_def Let_def)

text \<open>
  Where \<open>updateProgress\<close> does what the specification says: a word with a stored state
  gets the transition of that state; a word without an entry whose name is not inherited
  from \<open>Object.prototype\<close> gets the transition of the default state; no other word's
  entry changes; and the whole new mapping is saved under the key of the current catalog.
\<close>

lemma updateProgress_stored:
  "progressStore st w = Some (Entry p) \<Longrightarrow>
     progressStore (updateProgress w f st) w = Some (Entry (f p))"
  by (simp add: updateProgress_store current_or_default_def run_updater_def)

lemma updateProgress_absent:
  "progressStore st w = None \<Longrightarrow> w \<notin> set object_prototype_keys \<Longrightarrow>
     progressStore (updateProgress w f st) w = Some (Entry (f defaultProgress))"
  by (simp add: updateProgress_store current_or_default_def run_updater_def)
     (simp add: object_prototype_keys_def)

lemma updateProgress_others:
  "k \<noteq> w \<Longrightarrow> progressStore (updateProgress w f st) k = progressStore st k"
  by (simp add: updateProgress_store)

lemma updateProgress_saved:
  "localStorage (updateProgress w f st) (getProgressKey (or_string (dict_name st) ''Default''))
     = Some (progressStore (updateProgress w f st))"
  by (simp add: updateProgress_storage)

text \<open>
  C8. The statement fails for a word whose name is inherited from \<open>Object.prototype\<close>
  and that has no entry yet, such as the word constructor on the empty mapping. The read
  \<open>prev[wordValue]\<close> finds the inherited function, which is truthy, so the fallback to
  the default state is not taken: the updater runs on the function, and what is stored
  and saved for the word is not the transition of the default state.
\<close>

theorem updateProgress_inherited_key:
  "progressStore initial_state ''constructor'' = None
   \<and> progressStore (updateProgress ''constructor'' f initial_state) ''constructor'' = Some Malformed
   \<and> Malformed \<noteq> Entry (f defaultProgress)
   \<and> localStorage (updateProgress ''constructor'' f initial_state) ''word-progress-Default''
       = Some [''constructor'' \<mapsto> Malformed]"
  by (simp add: updateProgress_def current_or_default_def run_updater_def object_prototype_keys_def
      initial_state_def dict_name_def getProgressKey_def Let_def)

lemma onChoose_updater_correct: "onChoose_updater True t_rev t_due p = gradeFlash_updater Good t_rev t_due p"
  by (simp add: onChoose_updater_def gradeFlash_updater_def)

lemma onChoose_updater_wrong: "onChoose_updater False t_rev t_due p = gradeFlash_updater Again t_rev t_due p"
  by (simp add: onChoose_updater_def gradeFlash_updater_def)

lemma onChoose_answering:
  assumes "quizAnswered st = None" and "quizIndex st < length fw" and "idx < length (quizOptions st)"
  shows "onChoose idx t_rev t_due fw st
     = updateProgress (value_w (fw ! quizIndex st))
         (onChoose_updater (value_w (quizOptions st ! idx) = value_w (fw ! quizIndex st)) t_rev t_due)
         (st\<lparr> quizAnswered := Some idx \<rparr>)"
  using assms by (auto simp: onChoose_def at_index_def Let_def)

text \<open>
  Where \<open>onChoose\<close> does what the specification says. For an unanswered question whose
  target index lies in the active set and a chosen option that exists, and a target with
  the stored state \<open>p\<close>: a choice with the target's value stores \<open>p\<close> with \<open>seenCount\<close>,
  \<open>correctCount\<close> and \<open>streak\<close> each raised by one and \<open>nextDue\<close> 10 minutes after the
  current time; any other choice stores \<open>p\<close> with \<open>seenCount\<close> raised by one, \<open>streak\<close> 0,
  \<open>correctCount\<close> as it was and \<open>nextDue\<close> 10 seconds after the current time;
  \<open>lastReviewed\<close> is the current time in both cases. A target without an entry whose name
  is not inherited from \<open>Object.prototype\<close> is treated as stored with the default state.
\<close>

lemma onChoose_stored:
  assumes "quizAnswered st = None" and "quizIndex st < length fw" and "idx < length (quizOptions st)"
    and "progressStore st (value_w (fw ! quizIndex st)) = Some (Entry p)"
  shows "progressStore (onChoose idx t_rev t_due fw st) (value_w (fw ! quizIndex st))
       = Some (Entry (if value_w (quizOptions st ! idx) = value_w (fw ! quizIndex st)
               then p\<lparr> seenCount := seenCount p + 1, correctCount := correctCount p + 1,
                      streak := streak p + 1, lastReviewed := Some t_rev,
                      nextDue := Some (t_due + 600000) \<rparr>
               else p\<lparr> seenCount := seenCount p + 1, streak := 0, lastReviewed := Some t_rev,
                      nextDue := Some (t_due + 10000) \<rparr>))
     \<and> quizAnswered (onChoose idx t_rev t_due fw st) = Some idx"
proof -
  have "progressStore (st\<lparr> quizAnswered := Some idx \<rparr>) (value_w (fw ! quizIndex st)) = Some (Entry p)"
    using assms(4) by simp
  then show ?thesis
    unfolding onChoose_answering [OF assms(1-3)]
    by (simp add: updateProgress_stored updateProgress_rest onChoose_updater_def)
qed

lemma onChoose_absent:
  assumes "quizAnswered st = None" and "quizIndex st < length fw" and "idx < length (quizOptions st)"
    and "progressStore st (value_w (fw ! quizIndex st)) = None"
    and "value_w (fw ! quizIndex st) \<notin> set object_prototype_keys"
  shows "progressStore (onChoose idx t_rev t_due fw st) (value_w (fw ! quizIndex st))
       = Some (Entry (if value_w (quizOptions st ! idx) = value_w (fw ! quizIndex st)
               then defaultProgress\<lparr> seenCount := 1, correctCount := 1, streak := 1,
                      lastReviewed := Some t_rev, nextDue := Some (t_due + 600000) \<rparr>
               else defaultProgress\<lparr> seenCount := 1, streak := 0, lastReviewed := Some t_rev,
                      nextDue := Some (t_due + 10000) \<rparr>))"
proof -
  have "progressStore (st\<lparr> quizAnswered := Some idx \<rparr>) (value_w (fw ! quizIndex st)) = None"
    using assms(4) by simp
  then show ?thesis
    unfolding onChoose_answering [OF assms(1-3)]
    using assms(5) by (simp add: updateProgress_absent onChoose_updater_def defaultProgress_def)
qed

lemma sample_two_words:
  "length (sample_catalog [plain_word ''a'', plain_word ''b'']) = 2
   \<and> value_w (sample_catalog [plain_word ''a'', plain_word ''b''] ! 0) = ''a''
   \<and> value_w (sample_catalog [plain_word ''a'', plain_word ''b''] ! 1) = ''b''"
  by code_simp

lemma onChoose_sample:
  "progressStore
     (onChoose 1 100 200 (sample_catalog [plain_word ''a'', plain_word ''b''])
        (initial_state\<lparr> quizOptions := sample_catalog [plain_word ''a'', plain_word ''b''],
           progressStore := [''a'' \<mapsto> Entry (defaultProgress\<lparr> seenCount := 4, correctCount := 2,
                                                         streak := 2 \<rparr>)] \<rparr>)) ''a''
     = Some (Entry (defaultProgress\<lparr> seenCount := 5, correctCount := 2, streak := 0,
                                      lastReviewed := Some 100, nextDue := Some 10200 \<rparr>))
   \<and> progressStore
     (onChoose 0 100 200 (sample_catalog [plain_word ''a'', plain_word ''b''])
        (initial_state\<lparr> quizOptions := sample_catalog [plain_word ''a'', plain_word ''b''],
           progressStore := [''a'' \<mapsto> Entry (defaultProgress\<lparr> seenCount := 4, correctCount := 2,
                                                         streak := 2 \<rparr>)] \<rparr>)) ''a''
     = Some (Entry (defaultProgress\<lparr> seenCount := 5, correctCount := 3, streak := 3,
                                      lastReviewed := Some 100, nextDue := Some 600200 \<rparr>))"
proof -
  let ?cat = "sample_catalog [plain_word ''a'', plain_word ''b'']"
  let ?p = "defaultProgress\<lparr> seenCount := 4, correctCount := 2, streak := 2 \<rparr>"
  let ?st = "initial_state\<lparr> quizOptions := ?cat, progressStore := [''a'' \<mapsto> Entry ?p] \<rparr>"
  have st: "quizAnswered ?st = None" "quizIndex ?st = 0" "quizOptions ?st = ?cat"
    by (simp_all add: initial_state_def)
  have h2: "quizIndex ?st < length ?cat" using st(2) sample_two_words by simp
  have h3: "1 < length (quizOptions ?st)" using st(3) sample_two_words by simp
  have h4: "0 < length (quizOptions ?st)" using st(3) sample_two_words by simp
  have h5: "progressStore ?st (value_w (?cat ! quizIndex ?st)) = Some (Entry ?p)"
    using st(2) sample_two_words by simp
  have wrong: "progressStore (onChoose 1 100 200 ?cat ?st) ''a''
       = Some (Entry (defaultProgress\<lparr> seenCount := 5, correctCount := 2, streak := 0,
                                        lastReviewed := Some 100, nextDue := Some 10200 \<rparr>))"
    using onChoose_stored [OF st(1) h2 h3 h5, of 100 200] st sample_two_words
    by (simp add: defaultProgress_def)
  have right: "progressStore (onChoose 0 100 200 ?cat ?st) ''a''
       = Some (Entry (defaultProgress\<lparr> seenCount := 5, correctCount := 3, streak := 3,
                                        lastReviewed := Some 100, nextDue := Some 600200 \<rparr>))"
    using onChoose_stored [OF st(1) h2 h4 h5, of 100 200] st sample_two_words
    by (simp add: defaultProgress_def)
  show ?thesis using wrong right by (intro conjI)
qed

lemma sample_inherited_word:
  "length (sample_catalog [plain_word ''constructor'', plain_word ''b'']) = 2
   \<and> value_w (sample_catalog [plain_word ''constructor'', plain_word ''b''] ! 0) = ''constructor''"
  by code_simp

text \<open>
  C5. The statement fails for a target whose name is inherited from \<open>Object.prototype\<close>
  and that has no entry yet: in the quiz over the words constructor and b with the target
  constructor, choosing the right option records the answer, but \<open>updateProgress\<close> reads
  the inherited function as the current progress, and what it stores for the target is
  not the default state with the counters raised by one.
\<close>

theorem onChoose_inherited_key:
  "value_w (sample_catalog [plain_word ''constructor'', plain_word ''b''] ! 0) = ''constructor''
   \<and> quizAnswered
        (onChoose 0 100 200 (sample_catalog [plain_word ''constructor'', plain_word ''b''])
           (initial_state\<lparr> quizOptions := sample_catalog [plain_word ''constructor'', plain_word ''b''] \<rparr>))
       = Some 0
   \<and> progressStore
        (onChoose 0 100 200 (sample_catalog [plain_word ''constructor'', plain_word ''b''])
           (initial_state\<lparr> quizOptions := sample_catalog [plain_word ''constructor'', plain_word ''b''] \<rparr>))
        ''constructor''
       = Some Malformed
   \<and> Malformed \<noteq> Entry (defaultProgress\<lparr> seenCount := 1, correctCount := 1, streak := 1,
                                           lastReviewed := Some 100, nextDue := Some 600200 \<rparr>)"
proof -
  let ?cat = "sample_catalog [plain_word ''constructor'', plain_word ''b'']"
  let ?st = "initial_state\<lparr> quizOptions := ?cat \<rparr>"
  have st: "quizAnswered ?st = None" "quizIndex ?st = 0" "quizOptions ?st = ?cat"
    "progressStore ?st = Map.empty"
    by (simp_all add: initial_state_def)
  have h2: "quizIndex ?st < length ?cat" using st(2) sample_inherited_word by simp
  have h4: "0 < length (quizOptions ?st)" using st(3) sample_inherited_word by simp
  have target: "value_w (?cat ! 0) = ''constructor''" using sample_inherited_word by blast
  have step: "onChoose 0 100 200 ?cat ?st
     = updateProgress ''constructor'' (onChoose_updater True 100 200) (?st\<lparr> quizAnswered := Some 0 \<rparr>)"
    using onChoose_answering [OF st(1) h2 h4, of 100 200] st(2,3) target by simp
  have answered: "quizAnswered (onChoose 0 100 200 ?cat ?st) = Some 0"
    unfolding step by (simp add: updateProgress_rest)
  have stored: "progressStore (onChoose 0 100 200 ?cat ?st) ''constructor'' = Some Malformed"
    unfolding step
    by (simp add: updateProgress_store current_or_default_def run_updater_def
        object_prototype_keys_def initial_state_def)
  show ?thesis using target answered stored by simp
qed





lemma sample_random_ok: "random_ok sample_random"
  by (simp add: random_ok_def sample_random_def)


text \<open>
  C9. For a catalog without a name (absent or empty), the save in \<open>updateProgress\<close> and
  the reload effect use the key \<open>word-progress-Default\<close>, while \<open>onFileChange\<close> reads the
  progress from \<open>word-progress-default\<close>, which the save never writes: the fallback inside
  \<open>getProgressKey\<close> and the literal in \<open>onFileChange\<close> are spelled in lower case.
\<close>

theorem unnamed_catalog_keys:
  "getProgressKey [] = ''word-progress-default''
   \<and> progressStore (onFileChange (Some \<lparr> name = None, wordList = Some l \<rparr>) st)
       = stored_progress st ''word-progress-default''
   \<and> progressStore (onFileChange (Some \<lparr> name = Some [], wordList = Some l \<rparr>) st)
       = stored_progress st ''word-progress-default''
   \<and> localStorage (updateProgress w f (onFileChange (Some \<lparr> name = None, wordList = Some l \<rparr>) st))
         ''word-progress-Default''
       = Some (progressStore (updateProgress w f (onFileChange (Some \<lparr> name = None, wordList = Some l \<rparr>) st)))
   \<and> localStorage (updateProgress w f (onFileChange (Some \<lparr> name = None, wordList = Some l \<rparr>) st))
         ''word-progress-default''
       = localStorage st ''word-progress-default''
   \<and> progressStore (loadProgressEffect (onFileChange (Some \<lparr> name = None, wordList = Some l \<rparr>) st))
       = stored_progress st ''word-progress-Default''"
  by (simp add: getProgressKey_def onFileChange_def updateProgress_def loadProgressEffect_def
      dict_name_def stored_progress_def Let_def)

lemma named_catalog_keys:
  assumes "n \<noteq> []"
  shows "progressStore (onFileChange (Some \<lparr> name = Some n, wordList = Some l \<rparr>) st)
       = stored_progress st (''word-progress-'' @ n)
   \<and> localStorage (updateProgress w f (onFileChange (Some \<lparr> name = Some n, wordList = Some l \<rparr>) st))
         (''word-progress-'' @ n)
       = Some (progressStore (updateProgress w f (onFileChange (Some \<lparr> name = Some n, wordList = Some l \<rparr>) st)))
   \<and> progressStore (loadProgressEffect (onFileChange (Some \<lparr> name = Some n, wordList = Some l \<rparr>) st))
       = stored_progress st (''word-progress-'' @ n)"
  using assms
  by (simp add: getProgressKey_def onFileChange_def updateProgress_def loadProgressEffect_def
      dict_name_def stored_progress_def Let_def)

text \<open>
  In the page the hook's effect runs between the import and the reload. For a catalog
  without a name it writes the mapping that the import read from
  \<open>word-progress-default\<close> under \<open>word-progress-Default\<close>, and the reload reads that back.
\<close>

lemma unnamed_import_page_order:
  "progressStore (loadProgressEffect (persistEffect
       (onFileChange (Some \<lparr> name = None, wordList = Some l \<rparr>) st)))
     = stored_progress st ''word-progress-default''
   \<and> localStorage (persistEffect (onFileChange (Some \<lparr> name = None, wordList = Some l \<rparr>) st))
         ''word-progress-Default''
     = Some (stored_progress st ''word-progress-default'')"
  by (simp add: getProgressKey_def onFileChange_def persistEffect_def loadProgressEffect_def
      dict_name_def stored_progress_def Let_def)

section \<open>Properties of the word catalog\<close>

declare nat_to_string.simps [simp del]

lemma digit_value_digit_char: "d < 10 \<Longrightarrow> digit_value (digit_char d) = d"
  by (simp add: digit_value_def digit_char_def)

lemma digit_char_not_dash: "d < 10 \<Longrightarrow> digit_char d \<noteq> CHR ''-''"
proof
  assume "d < 10" and "digit_char d = CHR ''-''"
  then have "(of_char (digit_char d) :: nat) = of_char (CHR ''-'')" by simp
  with \<open>d < 10\<close> show False by (simp add: digit_char_def)
qed

lemma string_to_nat_snoc: "string_to_nat (s @ [c]) = 10 * string_to_nat s + digit_value c"
  by (simp add: string_to_nat_def)

lemma string_to_nat_inverse: "string_to_nat (nat_to_string n) = n"
proof (induction n rule: nat_to_string.induct)
  case (1 n)
  show ?case
  proof (cases "n < 10")
    case True
    then show ?thesis
      by (subst nat_to_string.simps) (simp add: string_to_nat_def digit_value_digit_char)
  next
    case False
    then have "string_to_nat (nat_to_string n)
        = 10 * string_to_nat (nat_to_string (n div 10)) + digit_value (digit_char (n mod 10))"
      by (subst nat_to_string.simps) (simp add: string_to_nat_snoc)
    also have "\<dots> = 10 * (n div 10) + n mod 10"
      using "1.IH" [OF False] by (simp add: digit_value_digit_char)
    finally show ?thesis by simp
  qed
qed

lemma nat_to_string_inj: "nat_to_string i = nat_to_string j \<Longrightarrow> i = j"
  by (metis string_to_nat_inverse)

lemma nat_to_string_no_dash: "CHR ''-'' \<notin> set (nat_to_string n)"
proof (induction n rule: nat_to_string.induct)
  case (1 n)
  show ?case
  proof (cases "n < 10")
    case True
    then show ?thesis
      using digit_char_not_dash [of n] by (subst nat_to_string.simps) auto
  next
    case False
    then show ?thesis
      using "1.IH" [OF False] digit_char_not_dash [of "n mod 10"]
      by (subst nat_to_string.simps) auto
  qed
qed

lemma id_index_part:
  "takeWhile (\<lambda>c. c \<noteq> CHR ''-'') (rev (v @ ''-'' @ nat_to_string i)) = rev (nat_to_string i)"
proof -
  have "rev (v @ ''-'' @ nat_to_string i) = rev (nat_to_string i) @ CHR ''-'' # rev v" by simp
  moreover have "\<forall>c\<in>set (rev (nat_to_string i)). c \<noteq> CHR ''-''"
    using nat_to_string_no_dash [of i] by auto
  ultimately show ?thesis by (simp add: takeWhile_tail)
qed

lemma id_inj:
  assumes "v @ ''-'' @ nat_to_string i = v' @ ''-'' @ nat_to_string j"
  shows "i = j"
proof -
  have "rev (nat_to_string i) = takeWhile (\<lambda>c. c \<noteq> CHR ''-'') (rev (v @ ''-'' @ nat_to_string i))"
    by (rule id_index_part [symmetric])
  also have "\<dots> = takeWhile (\<lambda>c. c \<noteq> CHR ''-'') (rev (v' @ ''-'' @ nat_to_string j))"
    by (simp only: assms)
  also have "\<dots> = rev (nat_to_string j)"
    by (rule id_index_part)
  finally have "nat_to_string i = nat_to_string j" by simp
  then show ?thesis by (rule nat_to_string_inj)
qed

lemma make_entry_fields:
  "id_w (make_entry (i, w)) = value_w w @ ''-'' @ nat_to_string i"
  "value_w (make_entry (i, w)) = value_w w"
  "progress (make_entry (i, w)) = defaultProgress"
  "WordItem.truncate (make_entry (i, w)) = w"
  by (simp_all add: make_entry_def WordItem.defs WordWithProgress.defs)

lemma normalize_some:
  "normalizeDictionary \<lparr> name = n, wordList = Some l \<rparr> = map make_entry (enumerate 0 l)"
  by (simp add: normalizeDictionary_def)

lemma normalize_ids:
  "map id_w (normalizeDictionary \<lparr> name = n, wordList = Some l \<rparr>)
     = map (\<lambda>iw. value_w (snd iw) @ ''-'' @ nat_to_string (fst iw)) (enumerate 0 l)"
  by (simp add: normalize_some make_entry_def WordItem.defs WordWithProgress.defs)

lemma ids_from_values:
  "map (\<lambda>iw. value_w (snd iw) @ ''-'' @ nat_to_string (fst iw)) (enumerate m l)
     = map (\<lambda>iv. snd iv @ ''-'' @ nat_to_string (fst iv)) (enumerate m (map value_w l))"
  by (induction l arbitrary: m) simp_all

lemma normalize_ids_zip:
  "map id_w (normalizeDictionary \<lparr> name = n, wordList = Some l \<rparr>)
     = map (\<lambda>iv. snd iv @ ''-'' @ nat_to_string (fst iv)) (enumerate 0 (map value_w l))"
  by (simp only: normalize_ids ids_from_values)

lemma truncate_entries: "map (\<lambda>iw. WordItem.truncate (make_entry iw)) (enumerate m l) = l"
  by (induction l arbitrary: m) (simp_all add: make_entry_fields)

lemma normalize_distinct:
  "distinct (map id_w (normalizeDictionary \<lparr> name = n, wordList = Some l \<rparr>))"
proof -
  let ?g = "\<lambda>iw :: nat \<times> WordItem. value_w (snd iw) @ ''-'' @ nat_to_string (fst iw)"
  have "inj_on ?g (set (enumerate 0 l))"
  proof (rule inj_onI)
    fix p q
    assume p: "p \<in> set (enumerate 0 l)" and q: "q \<in> set (enumerate 0 l)" and e: "?g p = ?g q"
    have "fst p = fst q" using e by (rule id_inj)
    moreover have "snd p = l ! fst p" and "snd q = l ! fst q"
      using p q by (auto simp: in_set_enumerate_eq)
    ultimately show "p = q" by (simp add: prod_eq_iff)
  qed
  then show ?thesis
    unfolding normalize_ids by (simp add: distinct_map distinct_enumerate)
qed

text \<open>
  C7. For every raw word list, \<open>normalizeDictionary\<close> returns as many entries as the
  list has words, each entry carrying its word unchanged; the entry at position \<open>i\<close> has
  the id "value-i"; no two entries of the catalog share an id, also when values repeat or
  themselves contain a dash; and the id sequence is a function of the sequence of values
  alone, so the same values in the same order always give the same ids. A document
  without a word list gives the empty catalog.
\<close>

theorem normalizeDictionary_ids:
  "length (normalizeDictionary \<lparr> name = n, wordList = Some l \<rparr>) = length l
   \<and> distinct (map id_w (normalizeDictionary \<lparr> name = n, wordList = Some l \<rparr>))
   \<and> map WordItem.truncate (normalizeDictionary \<lparr> name = n, wordList = Some l \<rparr>) = l
   \<and> (\<forall>i < length l. id_w (normalizeDictionary \<lparr> name = n, wordList = Some l \<rparr> ! i)
                        = value_w (l ! i) @ ''-'' @ nat_to_string i)
   \<and> (\<forall>n' l'. map value_w l' = map value_w l
        \<longrightarrow> map id_w (normalizeDictionary \<lparr> name = n', wordList = Some l' \<rparr>)
            = map id_w (normalizeDictionary \<lparr> name = n, wordList = Some l \<rparr>))
   \<and> normalizeDictionary \<lparr> name = n, wordList = None \<rparr> = []"
proof (intro conjI allI impI)
  show "length (normalizeDictionary \<lparr> name = n, wordList = Some l \<rparr>) = length l"
    by (simp add: normalize_some)
  show "distinct (map id_w (normalizeDictionary \<lparr> name = n, wordList = Some l \<rparr>))"
    by (rule normalize_distinct)
  show "map WordItem.truncate (normalizeDictionary \<lparr> name = n, wordList = Some l \<rparr>) = l"
    by (simp add: normalize_some comp_def truncate_entries)
  show "id_w (normalizeDictionary \<lparr> name = n, wordList = Some l \<rparr> ! i)
          = value_w (l ! i) @ ''-'' @ nat_to_string i" if "i < length l" for i
    using that by (simp add: normalize_some nth_enumerate_eq make_entry_fields)
  show "map id_w (normalizeDictionary \<lparr> name = n', wordList = Some l' \<rparr>)
          = map id_w (normalizeDictionary \<lparr> name = n, wordList = Some l \<rparr>)"
    if "map value_w l' = map value_w l" for n' l'
    using that by (simp only: normalize_ids_zip)
  show "normalizeDictionary \<lparr> name = n, wordList = None \<rparr> = []"
    by (simp add: normalizeDictionary_def)
qed

lemma sample_index_one: "nat_to_string (Suc 0) = ''1''"
  by code_simp

theorem normalizeDictionary_ids_witness:
  "(1::nat) < length [plain_word ''a'', plain_word ''a'']
   \<and> id_w (normalizeDictionary \<lparr> name = None, wordList = Some [plain_word ''a'', plain_word ''a''] \<rparr> ! 1)
       = ''a-1''
   \<and> map value_w [(plain_word ''a'')\<lparr> bnc := Some 3 \<rparr>, plain_word ''a'']
       = map value_w [plain_word ''a'', plain_word ''a'']
   \<and> map id_w (normalizeDictionary
         \<lparr> name = Some ''x'', wordList = Some [(plain_word ''a'')\<lparr> bnc := Some 3 \<rparr>, plain_word ''a''] \<rparr>)
       = map id_w (normalizeDictionary \<lparr> name = None, wordList = Some [plain_word ''a'', plain_word ''a''] \<rparr>)
   \<and> distinct (map id_w (normalizeDictionary
         \<lparr> name = None, wordList = Some [plain_word ''a'', plain_word ''a''] \<rparr>))"
proof -
  let ?l = "[plain_word ''a'', plain_word ''a'']"
  let ?l' = "[(plain_word ''a'')\<lparr> bnc := Some 3 \<rparr>, plain_word ''a'']"
  note inst = normalizeDictionary_ids [of None ?l]
  have len: "(1::nat) < length ?l" by simp
  have vals: "map value_w ?l' = map value_w ?l" by (simp add: plain_word_def)
  have "id_w (normalizeDictionary \<lparr> name = None, wordList = Some ?l \<rparr> ! 1)
          = value_w (?l ! 1) @ ''-'' @ nat_to_string 1"
    using inst len by blast
  then have one: "id_w (normalizeDictionary \<lparr> name = None, wordList = Some ?l \<rparr> ! 1) = ''a-1''"
    by (simp add: plain_word_def sample_index_one)
  have same: "map id_w (normalizeDictionary \<lparr> name = Some ''x'', wordList = Some ?l' \<rparr>)
          = map id_w (normalizeDictionary \<lparr> name = None, wordList = Some ?l \<rparr>)"
    using inst vals by blast
  have dist: "distinct (map id_w (normalizeDictionary \<lparr> name = None, wordList = Some ?l \<rparr>))"
    using inst by blast
  show ?thesis
    by (intro conjI) (rule len, rule one, rule vals, rule same, rule dist)
qed

section \<open>Properties of the quiz generator\<close>

lemma random_index_in_range:
  assumes "0 \<le> u" and "u < 1" and "0 < n"
  shows "nat \<lfloor>u * real n\<rfloor> < n"
proof -
  have "u * real n < real n" using assms by simp
  moreover have "0 \<le> u * real n" using assms by simp
  ultimately show ?thesis by (simp add: floor_less_iff nat_less_iff)
qed

lemma enumerate_keep_all:
  "\<forall>p\<in>set (enumerate m xs). fst p \<noteq> k
     \<Longrightarrow> map snd (filter (\<lambda>iw. fst iw \<noteq> k) (enumerate m xs)) = xs"
  by (simp add: map_snd_enumerate)

lemma pool_is_rest:
  assumes "k < length xs"
  shows "map snd (filter (\<lambda>iw. fst iw \<noteq> k) (enumerate 0 xs)) = take k xs @ drop (Suc k) xs"
proof -
  have split: "xs = take k xs @ (xs ! k) # drop (Suc k) xs"
    using assms by (simp add: id_take_nth_drop)
  have lt: "length (take k xs) = k" using assms by simp
  have "enumerate 0 xs = enumerate 0 (take k xs) @ (k, xs ! k) # enumerate (Suc k) (drop (Suc k) xs)"
    using arg_cong [OF split, of "enumerate 0"] lt by (simp add: enumerate_append_eq)
  moreover have "map snd (filter (\<lambda>iw. fst iw \<noteq> k) (enumerate 0 (take k xs))) = take k xs"
    by (rule enumerate_keep_all) (auto simp: in_set_enumerate_eq)
  moreover have "map snd (filter (\<lambda>iw. fst iw \<noteq> k) (enumerate (Suc k) (drop (Suc k) xs))) = drop (Suc k) xs"
    by (rule enumerate_keep_all) (auto simp: in_set_enumerate_eq)
  ultimately show ?thesis by simp
qed

lemma pool_mset:
  assumes "k < length xs"
  shows "add_mset (xs ! k) (mset (map snd (filter (\<lambda>iw. fst iw \<noteq> k) (enumerate 0 xs)))) = mset xs"
proof -
  have "mset xs = mset (take k xs @ (xs ! k) # drop (Suc k) xs)"
    using assms by (simp add: id_take_nth_drop [symmetric])
  then show ?thesis unfolding pool_is_rest [OF assms] by simp
qed

lemma pool_length:
  assumes "k < length xs"
  shows "length (map snd (filter (\<lambda>iw. fst iw \<noteq> k) (enumerate 0 xs))) = length xs - 1"
  unfolding pool_is_rest [OF assms] using assms by simp

lemma take_mset_subset: "mset (take n xs) \<subseteq># mset xs"
proof -
  have "mset xs = mset (take n xs) + mset (drop n xs)"
    by (metis append_take_drop_id mset_append)
  then show ?thesis by simp
qed

lemma distinct_sub:
  assumes "mset xs \<subseteq># mset ys" and "distinct (map g ys)"
  shows "distinct (map g xs)"
proof -
  have "image_mset g (mset xs) \<subseteq># image_mset g (mset ys)"
    using assms(1) by (rule image_mset_subseteq_mono)
  then have sub: "mset (map g xs) \<subseteq># mset (map g ys)" by simp
  have "\<And>a. count (mset (map g xs)) a \<le> 1"
  proof -
    fix a
    have "count (mset (map g xs)) a \<le> count (mset (map g ys)) a"
      using sub by (rule mset_subset_eq_count)
    also have "\<dots> \<le> 1" using assms(2) by (simp add: distinct_count_atmost_1)
    finally show "count (mset (map g xs)) a \<le> 1" .
  qed
  then show ?thesis
    unfolding distinct_count_atmost_1 by (metis count_mset_0_iff le_neq_implies_less less_one order_antisym_conv set_mset_mset One_nat_def le_zero_eq not_one_le_zero)
qed

lemma count_by_value:
  "length (filter (\<lambda>opt. g opt = v) xs) = count (mset (map g xs)) v"
  by (induction xs) auto

lemma generateQuiz_active:
  assumes "fw \<noteq> []"
  shows "generateQuiz r fw st
     = st\<lparr> quizIndex := nat \<lfloor>random_draw r * real (length fw)\<rfloor>,
           quizOptions := shuffle_options r
              (take 3 (shuffle_pool r
                 (map snd (filter (\<lambda>iw. fst iw \<noteq> nat \<lfloor>random_draw r * real (length fw)\<rfloor>)
                    (enumerate 0 fw))))
               @ [fw ! nat \<lfloor>random_draw r * real (length fw)\<rfloor>]),
           quizAnswered := None \<rparr>"
  using assms by (simp add: generateQuiz_def Let_def)

text \<open>
  C2, as amended. For every non-empty active set of size \<open>n\<close>, \<open>generateQuiz\<close> picks a
  target inside the set and returns exactly \<open>min(4, n)\<close> options, the target among them,
  each option an entry of the active set and no entry used more often than it occurs
  there. So options are pairwise distinct by id when the ids of the set are, and when the
  values of the active set are pairwise distinct, the options are pairwise distinct by
  value and exactly one option has the value of the target.
\<close>

theorem generateQuiz_options:
  assumes "random_ok r" and "fw \<noteq> []"
  shows "length (quizOptions (generateQuiz r fw st)) = min 4 (length fw)
     \<and> quizIndex (generateQuiz r fw st) < length fw
     \<and> fw ! quizIndex (generateQuiz r fw st) \<in> set (quizOptions (generateQuiz r fw st))
     \<and> mset (quizOptions (generateQuiz r fw st)) \<subseteq># mset fw
     \<and> quizAnswered (generateQuiz r fw st) = None
     \<and> (distinct (map id_w fw) \<longrightarrow> distinct (map id_w (quizOptions (generateQuiz r fw st))))
     \<and> (distinct (map value_w fw) \<longrightarrow>
          distinct (map value_w (quizOptions (generateQuiz r fw st)))
          \<and> length (filter (\<lambda>opt. value_w opt = value_w (fw ! quizIndex (generateQuiz r fw st)))
                (quizOptions (generateQuiz r fw st))) = 1)"
proof -
  define k where "k = nat \<lfloor>random_draw r * real (length fw)\<rfloor>"
  define pool where "pool = map snd (filter (\<lambda>iw. fst iw \<noteq> k) (enumerate 0 fw))"
  define shuffled where "shuffled = take 3 (shuffle_pool r pool)"
  define opts where "opts = shuffle_options r (shuffled @ [fw ! k])"
  have gq: "generateQuiz r fw st = st\<lparr> quizIndex := k, quizOptions := opts, quizAnswered := None \<rparr>"
    unfolding generateQuiz_active [OF assms(2)] k_def pool_def shuffled_def opts_def ..
  have qi: "quizIndex (generateQuiz r fw st) = k" and qo: "quizOptions (generateQuiz r fw st) = opts"
    and qa: "quizAnswered (generateQuiz r fw st) = None"
    unfolding gq by simp_all
  have draw: "0 \<le> random_draw r" "random_draw r < 1"
    and sp: "\<And>xs. mset (shuffle_pool r xs) = mset xs"
    and so: "\<And>xs. mset (shuffle_options r xs) = mset xs"
    using assms(1) by (simp_all add: random_ok_def)
  have k: "k < length fw"
    unfolding k_def using draw assms(2) by (intro random_index_in_range) simp_all
  have pool_len: "length pool = length fw - 1"
    unfolding pool_def by (rule pool_length [OF k])
  have pool_ms: "add_mset (fw ! k) (mset pool) = mset fw"
    unfolding pool_def by (rule pool_mset [OF k])
  have "length (shuffle_pool r pool) = length pool"
    using sp [of pool] by (metis size_mset)
  then have sh_len: "length shuffled = min 3 (length fw - 1)"
    unfolding shuffled_def using pool_len by simp
  have "mset shuffled \<subseteq># mset (shuffle_pool r pool)"
    unfolding shuffled_def by (rule take_mset_subset)
  then have sh_ms: "mset shuffled \<subseteq># mset pool" using sp [of pool] by simp
  have opts_ms: "mset opts = add_mset (fw ! k) (mset shuffled)"
    unfolding opts_def using so [of "shuffled @ [fw ! k]"] by simp
  have "length opts = length (shuffled @ [fw ! k])"
    unfolding opts_def using so [of "shuffled @ [fw ! k]"] by (metis size_mset)
  then have len: "length opts = min 4 (length fw)"
    using sh_len k by simp
  have target: "fw ! k \<in> set opts"
    using opts_ms by (metis set_mset_mset union_single_eq_member)
  have sub: "mset opts \<subseteq># mset fw"
    using opts_ms sh_ms pool_ms by (metis mset_subset_eq_add_mset_cancel)
  have ids: "distinct (map id_w opts)" if "distinct (map id_w fw)"
    using sub that by (rule distinct_sub)
  have vals: "distinct (map value_w opts)" if "distinct (map value_w fw)"
    using sub that by (rule distinct_sub)
  have one: "length (filter (\<lambda>opt. value_w opt = value_w (fw ! k)) opts) = 1"
    if "distinct (map value_w fw)"
  proof -
    have "value_w (fw ! k) \<in> set (map value_w opts)" using target by simp
    then have "count (mset (map value_w opts)) (value_w (fw ! k)) = 1"
      using vals [OF that] by (simp add: distinct_count_atmost_1 del: set_map)
    then show ?thesis by (simp only: count_by_value)
  qed
  show ?thesis
    unfolding qi qo qa using len k target sub ids vals one by simp
qed

text \<open>
  C2 as stated fails when the active set repeats a value: for the catalog of two records
  with the value a, the two options (ids a-0 and a-1) both have the value a, which is the
  value of the target, so the options are not distinct by value and both pass the
  correctness check.
\<close>

theorem duplicate_values_counterexample:
  "map value_w (quizOptions (generateQuiz sample_random
       (sample_catalog [plain_word ''a'', plain_word ''a'']) initial_state)) = [''a'', ''a'']
   \<and> map id_w (quizOptions (generateQuiz sample_random
       (sample_catalog [plain_word ''a'', plain_word ''a'']) initial_state)) = [''a-0'', ''a-1'']
   \<and> value_w (sample_catalog [plain_word ''a'', plain_word ''a'']
        ! quizIndex (generateQuiz sample_random
            (sample_catalog [plain_word ''a'', plain_word ''a'']) initial_state)) = ''a''"
  by code_simp

lemma sample_five_words:
  "length (sample_catalog [plain_word ''a'', plain_word ''b'', plain_word ''c'', plain_word ''d'',
                           plain_word ''e'']) = 5
   \<and> distinct (map value_w (sample_catalog [plain_word ''a'', plain_word ''b'', plain_word ''c'',
                                            plain_word ''d'', plain_word ''e'']))"
  by code_simp

theorem generateQuiz_options_witness:
  "random_ok (sample_random :: WordWithProgress random_source)
   \<and> sample_catalog [plain_word ''a'', plain_word ''b'', plain_word ''c'', plain_word ''d'',
                      plain_word ''e''] \<noteq> []
   \<and> length (quizOptions (generateQuiz sample_random
        (sample_catalog [plain_word ''a'', plain_word ''b'', plain_word ''c'', plain_word ''d'',
                         plain_word ''e'']) initial_state)) = 4
   \<and> distinct (map value_w (quizOptions (generateQuiz sample_random
        (sample_catalog [plain_word ''a'', plain_word ''b'', plain_word ''c'', plain_word ''d'',
                         plain_word ''e'']) initial_state)))
   \<and> length (quizOptions (generateQuiz sample_random
        (sample_catalog [plain_word ''a'', plain_word ''b'']) initial_state)) = 2"
proof -
  let ?fw = "sample_catalog [plain_word ''a'', plain_word ''b'', plain_word ''c'', plain_word ''d'',
                             plain_word ''e'']"
  let ?two = "sample_catalog [plain_word ''a'', plain_word ''b'']"
  have five: "length ?fw = 5" and dv: "distinct (map value_w ?fw)"
    using sample_five_words by blast+
  have ne: "?fw \<noteq> []" using five by auto
  have two: "length ?two = 2" using sample_two_words by blast
  have ne2: "?two \<noteq> []" using two by auto
  note inst = generateQuiz_options [OF sample_random_ok ne, of initial_state]
  note inst2 = generateQuiz_options [OF sample_random_ok ne2, of initial_state]
  have "length (quizOptions (generateQuiz sample_random ?fw initial_state)) = min 4 (length ?fw)"
    using inst by blast
  then have four: "length (quizOptions (generateQuiz sample_random ?fw initial_state)) = 4"
    by (simp add: five)
  have dist: "distinct (map value_w (quizOptions (generateQuiz sample_random ?fw initial_state)))"
    using inst dv by blast
  have "length (quizOptions (generateQuiz sample_random ?two initial_state)) = min 4 (length ?two)"
    using inst2 by blast
  then have both: "length (quizOptions (generateQuiz sample_random ?two initial_state)) = 2"
    by (simp add: two)
  show ?thesis
    by (intro conjI) (rule sample_random_ok, rule ne, rule four, rule dist, rule both)
qed

end
